theory Spec2Isabelle
  imports Main "HOL-Library.AList"
begin

section \<open>The LLM management API (llm-management-api.py)\<close>

text \<open>
  The program is a Flask application that starts, stops, restarts and reports two
  services, \<open>nllb\<close> (port 8000) and \<open>ollama\<close> (port 8001). It talks to the outside
  through four library calls: \<open>requests.get\<close>, \<open>psutil.process_iter\<close>,
  \<open>subprocess.run\<close> and \<open>time.sleep\<close>. The model makes the outside an explicit
  environment that answers the n-th call of each kind, and threads the module's
  global dictionary, the call counters and a trace of the calls through every function.
\<close>

subsection \<open>JSON bodies and what a view function returns\<close>

datatype json = JNull | JBool bool | JInt int | JStr string | JObj "(string \<times> json) list"

text \<open>Python's \<open>d.get(key, default)\<close> on a parsed JSON body.\<close>

fun json_get :: "json \<Rightarrow> string \<Rightarrow> json \<Rightarrow> json" where
  "json_get (JObj kvs) k d = (case map_of kvs k of None \<Rightarrow> d | Some v \<Rightarrow> v)"
| "json_get _ k d = d"

text \<open>Python's truth value of a JSON value, as \<open>not x\<close> tests it.\<close>

fun truthy :: "json \<Rightarrow> bool" where
  "truthy JNull = False"
| "truthy (JBool b) = b"
| "truthy (JInt i) = (i \<noteq> 0)"
| "truthy (JStr s) = (s \<noteq> [])"
| "truthy (JObj kvs) = (kvs \<noteq> [])"

text \<open>
  A view function returns either a bare \<open>Response\<close> object (\<open>return jsonify(...)\<close>)
  or a tuple of a response and a status code (\<open>return jsonify(...), 500\<close>).
\<close>

datatype view_result = Resp json | RespCode json nat

datatype exn = TypeError | KeyError string

text \<open>
  The status code Flask sends: 200 for a bare response, the given code for a tuple,
  500 for an exception that leaves the view function.
\<close>

fun http_status :: "exn + view_result \<Rightarrow> nat" where
  "http_status (Inl e) = 500"
| "http_status (Inr (Resp body)) = 200"
| "http_status (Inr (RespCode body code)) = code"

fun body_of :: "exn + view_result \<Rightarrow> json" where
  "body_of (Inl e) = JNull"
| "body_of (Inr (Resp body)) = body"
| "body_of (Inr (RespCode body code)) = body"

text \<open>
  \<open>stop_result[0]\<close>: the first component of a tuple; a \<open>Response\<close> object has no
  \<open>__getitem__\<close>, so subscripting it raises \<open>TypeError\<close>.
\<close>

fun subscript0 :: "view_result \<Rightarrow> exn + json" where
  "subscript0 (RespCode body code) = Inr body"
| "subscript0 (Resp body) = Inl TypeError"

subsection \<open>The registry \<open>service_processes\<close>\<close>

record entry =
  pid :: "int option"
  status :: string
  start_time :: "int option"

type_synonym registry = "(string \<times> entry) list"

definition initial_registry :: registry where
  "initial_registry =
     [(''nllb'', \<lparr>pid = None, status = ''stopped'', start_time = None\<rparr>),
      (''ollama'', \<lparr>pid = None, status = ''stopped'', start_time = None\<rparr>)]"

definition PROJECT_DIR :: string where
  "PROJECT_DIR = ''/home/jamil/projects/GlobalNews-Letter''"

subsection \<open>The environment and the state\<close>

text \<open>What \<open>subprocess.run(..., timeout=30)\<close> can do: complete, time out, or raise otherwise.\<close>

datatype proc_outcome = Completed string string int | TimeoutExpired | OtherException string

text \<open>What \<open>requests.get(url, timeout=5)\<close> can do: answer with a status code, or raise.\<close>

datatype http_outcome = HttpStatus nat | RequestException

record conn =
  laddr_port :: nat
  conn_status :: string

text \<open>One item of \<open>psutil.process_iter(['pid', 'name', 'connections'])\<close>.\<close>

record proc =
  proc_pid :: int
  connections :: "conn list option"

text \<open>
  The environment answers the n-th call of each kind. An enumeration of processes that
  raises is the list of the processes it yielded before raising: the bare \<open>except\<close>
  of \<open>get_process_by_port\<close> turns the exception into "no further process".
\<close>

record env =
  requests_get :: "nat \<Rightarrow> string \<Rightarrow> http_outcome"
  process_iter :: "nat \<Rightarrow> proc list"
  subprocess_run :: "nat \<Rightarrow> string \<Rightarrow> proc_outcome"

datatype event = EvProbe string bool | EvScan nat | EvScript string | EvSleep nat

record state =
  service_processes :: registry
  gets :: nat
  scans :: nat
  runs :: nat
  trace :: "event list"

definition initial_state :: state where
  "initial_state =
     \<lparr>service_processes = initial_registry, gets = 0, scans = 0, runs = 0, trace = []\<rparr>"

subsection \<open>The helpers\<close>

fun run_script_result :: "proc_outcome \<Rightarrow> string \<times> string \<times> int" where
  "run_script_result (Completed out err rc) = (out, err, rc)"
| "run_script_result TimeoutExpired = ('''', ''Script timed out'', 1)"
| "run_script_result (OtherException msg) = ('''', msg, 1)"

definition run_script :: "env \<Rightarrow> string \<Rightarrow> state \<Rightarrow> (string \<times> string \<times> int) \<times> state" where
  "run_script e script_path st =
     (run_script_result (subprocess_run e (runs st) script_path),
      st\<lparr>runs := Suc (runs st), trace := trace st @ [EvScript script_path]\<rparr>)"

text \<open>The \<open>if\<close>/\<open>elif\<close>/\<open>else\<close> of \<open>check_service_health\<close> that picks the URL.\<close>

definition health_url :: "string \<Rightarrow> string option" where
  "health_url service =
     (if service = ''nllb'' then Some ''http://localhost:8000/health''
      else if service = ''ollama'' then Some ''http://localhost:8001/health''
      else None)"

definition check_service_health :: "env \<Rightarrow> string \<Rightarrow> state \<Rightarrow> bool \<times> state" where
  "check_service_health e service st =
     (case health_url service of
        None \<Rightarrow> (False, st)
      | Some url \<Rightarrow>
          (let ok = (requests_get e (gets st) url = HttpStatus 200)
           in (ok, st\<lparr>gets := Suc (gets st), trace := trace st @ [EvProbe service ok]\<rparr>)))"

text \<open>Whether the n-th HTTP request, made as a health probe of the service, is answered 200.\<close>

definition probe_ok :: "env \<Rightarrow> string \<Rightarrow> nat \<Rightarrow> bool" where
  "probe_ok e service n =
     (case health_url service of
        None \<Rightarrow> False
      | Some url \<Rightarrow> requests_get e n url = HttpStatus 200)"

fun listens_on :: "nat \<Rightarrow> conn list \<Rightarrow> bool" where
  "listens_on port [] = False"
| "listens_on port (c # cs) =
     (if laddr_port c = port \<and> conn_status c = ''LISTEN'' then True else listens_on port cs)"

fun find_listener :: "nat \<Rightarrow> proc list \<Rightarrow> int option" where
  "find_listener port [] = None"
| "find_listener port (p # ps) =
     (if listens_on port (case connections p of None \<Rightarrow> [] | Some cs \<Rightarrow> cs)
      then Some (proc_pid p) else find_listener port ps)"

definition get_process_by_port :: "env \<Rightarrow> nat \<Rightarrow> state \<Rightarrow> int option \<times> state" where
  "get_process_by_port e port st =
     (find_listener port (process_iter e (scans st)),
      st\<lparr>scans := Suc (scans st), trace := trace st @ [EvScan port]\<rparr>)"

definition time_sleep :: "nat \<Rightarrow> state \<Rightarrow> state" where
  "time_sleep secs st = st\<lparr>trace := trace st @ [EvSleep secs]\<rparr>"

text \<open>Python's truth value of \<open>pid\<close>: \<open>None\<close> and \<open>0\<close> are false.\<close>

fun pid_truthy :: "int option \<Rightarrow> bool" where
  "pid_truthy None = False"
| "pid_truthy (Some p) = (p \<noteq> 0)"

text \<open>
  \<open>service_processes[service]['pid'] = p; service_processes[service]['status'] = s\<close>:
  the two assignments go through the same outer lookup, which raises \<open>KeyError\<close>
  for a missing key; the inner dictionary is updated in place.
\<close>

definition set_pid_status ::
  "string \<Rightarrow> int option \<Rightarrow> string \<Rightarrow> state \<Rightarrow> (exn + unit) \<times> state" where
  "set_pid_status service p s st =
     (case map_of (service_processes st) service of
        None \<Rightarrow> (Inl (KeyError service), st)
      | Some en \<Rightarrow>
          (Inr (), st\<lparr>service_processes :=
                       AList.update service (en\<lparr>pid := p, status := s\<rparr>) (service_processes st)\<rparr>))"

text \<open>The body of the loop of \<open>update_service_status\<close>, and the loop itself.\<close>

definition update_one :: "env \<Rightarrow> string \<Rightarrow> state \<Rightarrow> (exn + unit) \<times> state" where
  "update_one e service st =
     (let port = (if service = ''nllb'' then 8000 else 8001);
          (p, st1) = get_process_by_port e port st;
          (ok, st2) = (if pid_truthy p then check_service_health e service st1 else (False, st1))
      in if ok then set_pid_status service p ''running'' st2
         else set_pid_status service None ''stopped'' st2)"

fun update_loop :: "env \<Rightarrow> string list \<Rightarrow> state \<Rightarrow> (exn + unit) \<times> state" where
  "update_loop e [] st = (Inr (), st)"
| "update_loop e (service # rest) st =
     (case update_one e service st of
        (Inl ex, st1) \<Rightarrow> (Inl ex, st1)
      | (Inr u, st1) \<Rightarrow> update_loop e rest st1)"

definition update_service_status :: "env \<Rightarrow> state \<Rightarrow> (exn + unit) \<times> state" where
  "update_service_status e st = update_loop e [''nllb'', ''ollama''] st"

subsection \<open>The view functions\<close>

definition invalid_service :: view_result where
  "invalid_service = RespCode (JObj [(''error'', JStr ''Invalid service'')]) 400"

fun json_pid :: "int option \<Rightarrow> json" where
  "json_pid None = JNull"
| "json_pid (Some p) = JInt p"

definition json_entry :: "entry \<Rightarrow> json" where
  "json_entry en =
     JObj [(''pid'', json_pid (pid en)), (''status'', JStr (status en)),
           (''start_time'', json_pid (start_time en))]"

definition health :: "state \<Rightarrow> (exn + view_result) \<times> state" where
  "health st =
     (Inr (Resp (JObj [(''status'', JStr ''healthy''),
                       (''services'', JObj (map (\<lambda>(k, en). (k, json_entry en))
                                               (service_processes st)))])), st)"

text \<open>One inner dictionary of the answer of \<open>get_services_status\<close>.\<close>

definition status_item ::
  "env \<Rightarrow> string \<Rightarrow> nat \<Rightarrow> string \<Rightarrow> state \<Rightarrow> (exn + json) \<times> state" where
  "status_item e service port endpoint st =
     (case map_of (service_processes st) service of
        None \<Rightarrow> (Inl (KeyError service), st)
      | Some en \<Rightarrow>
          (let (ok, st1) = check_service_health e service st
           in (Inr (JObj [(''status'', JStr (status en)), (''pid'', json_pid (pid en)),
                          (''healthy'', JBool ok), (''port'', JInt (int port)),
                          (''endpoint'', JStr endpoint)]), st1)))"

definition get_services_status :: "env \<Rightarrow> state \<Rightarrow> (exn + view_result) \<times> state" where
  "get_services_status e st =
     (case update_service_status e st of
        (Inl ex, st1) \<Rightarrow> (Inl ex, st1)
      | (Inr u, st1) \<Rightarrow>
          (case status_item e ''nllb'' 8000 ''http://localhost:8000'' st1 of
             (Inl ex, st2) \<Rightarrow> (Inl ex, st2)
           | (Inr a, st2) \<Rightarrow>
               (case status_item e ''ollama'' 8001 ''http://localhost:8001'' st2 of
                  (Inl ex, st3) \<Rightarrow> (Inl ex, st3)
                | (Inr b, st3) \<Rightarrow>
                    (Inr (Resp (JObj [(''nllb'', a), (''ollama'', b)])), st3))))"

text \<open>
  The loop \<open>for _ in range(15)\<close> of \<open>start_service\<close>, with the number of rounds
  left: it sleeps two seconds, probes, and leaves with \<open>True\<close> at the first positive
  probe; \<open>False\<close> means the range was exhausted.
\<close>

fun wait_ready :: "env \<Rightarrow> string \<Rightarrow> nat \<Rightarrow> state \<Rightarrow> bool \<times> state" where
  "wait_ready e service 0 st = (False, st)"
| "wait_ready e service (Suc n) st =
     (let st1 = time_sleep 2 st;
          (ok, st2) = check_service_health e service st1
      in if ok then (True, st2) else wait_ready e service n st2)"

definition start_service :: "env \<Rightarrow> string \<Rightarrow> state \<Rightarrow> (exn + view_result) \<times> state" where
  "start_service e service st =
     (if service \<noteq> ''nllb'' \<and> service \<noteq> ''ollama'' then (Inr invalid_service, st)
      else
        let (up, st1) = check_service_health e service st in
        if up then
          (Inr (Resp (JObj [(''success'', JBool True),
                            (''message'', JStr (service @ '' service is already running'')),
                            (''status'', JStr ''running'')])), st1)
        else
          let script_path = PROJECT_DIR @ ''/llm-control/start-'' @ service @ ''.sh'';
              ((stdout, stderr, returncode), st2) = run_script e script_path st1
          in
          if returncode \<noteq> 0 then
            (Inr (RespCode (JObj [(''success'', JBool False),
                                  (''error'', JStr (''Failed to start '' @ service @ '': '' @ stderr)),
                                  (''stdout'', JStr stdout)]) 500), st2)
          else
            (case wait_ready e service 15 st2 of
               (True, st3) \<Rightarrow>
                 (case update_service_status e st3 of
                    (Inl ex, st4) \<Rightarrow> (Inl ex, st4)
                  | (Inr u, st4) \<Rightarrow>
                      (Inr (Resp (JObj [(''success'', JBool True),
                                        (''message'', JStr (service @ '' service started successfully'')),
                                        (''status'', JStr ''running''),
                                        (''stdout'', JStr stdout)])), st4))
             | (False, st3) \<Rightarrow>
                 (Inr (RespCode (JObj [(''success'', JBool False),
                                       (''error'', JStr (service @ '' service failed to start within timeout'')),
                                       (''stdout'', JStr stdout)]) 500), st3)))"

definition stop_service :: "env \<Rightarrow> string \<Rightarrow> state \<Rightarrow> (exn + view_result) \<times> state" where
  "stop_service e service st =
     (if service \<noteq> ''nllb'' \<and> service \<noteq> ''ollama'' then (Inr invalid_service, st)
      else
        let script_path = PROJECT_DIR @ ''/llm-control/stop-'' @ service @ ''.sh'';
            ((stdout, stderr, returncode), st1) = run_script e script_path st
        in
        if returncode \<noteq> 0 then
          (Inr (RespCode (JObj [(''success'', JBool False),
                                (''error'', JStr (''Failed to stop '' @ service @ '': '' @ stderr)),
                                (''stdout'', JStr stdout)]) 500), st1)
        else
          (case update_service_status e (time_sleep 2 st1) of
             (Inl ex, st2) \<Rightarrow> (Inl ex, st2)
           | (Inr u, st2) \<Rightarrow>
               (case map_of (service_processes st2) service of
                  None \<Rightarrow> (Inl (KeyError service), st2)
                | Some en \<Rightarrow>
                    (Inr (Resp (JObj [(''success'', JBool True),
                                      (''message'', JStr (service @ '' service stopped successfully'')),
                                      (''status'', JStr (status en)),
                                      (''stdout'', JStr stdout)])), st2))))"

definition restart_service :: "env \<Rightarrow> string \<Rightarrow> state \<Rightarrow> (exn + view_result) \<times> state" where
  "restart_service e service st =
     (if service \<noteq> ''nllb'' \<and> service \<noteq> ''ollama'' then (Inr invalid_service, st)
      else
        (case stop_service e service st of
           (Inl ex, st1) \<Rightarrow> (Inl ex, st1)
         | (Inr stop_result, st1) \<Rightarrow>
             (case subscript0 stop_result of
                Inl ex \<Rightarrow> (Inl ex, st1)
              | Inr body \<Rightarrow>
                  if \<not> truthy (json_get body ''success'' (JBool False))
                  then (Inr stop_result, st1)
                  else start_service e service (time_sleep 2 st1))))"

subsection \<open>Requests and runs of the server\<close>

datatype request =
  GetHealth | GetStatus | PostStart string | PostStop string | PostRestart string

fun handle :: "env \<Rightarrow> request \<Rightarrow> state \<Rightarrow> (exn + view_result) \<times> state" where
  "handle e GetHealth st = health st"
| "handle e GetStatus st = get_services_status e st"
| "handle e (PostStart service) st = start_service e service st"
| "handle e (PostStop service) st = stop_service e service st"
| "handle e (PostRestart service) st = restart_service e service st"

text \<open>
  The state after the main block's initial \<open>update_service_status()\<close>, and after a
  sequence of requests handled one after the other.
\<close>

definition boot :: "env \<Rightarrow> state" where
  "boot e = snd (update_service_status e initial_state)"

fun serve :: "env \<Rightarrow> request list \<Rightarrow> state \<Rightarrow> state" where
  "serve e [] st = st"
| "serve e (r # rs) st = serve e rs (snd (handle e r st))"

subsection \<open>Two overlapping start requests\<close>

text \<open>
  The server answers each request in a thread of its own and the source takes no lock,
  so a second \<open>start_service\<close> can run while a first one is suspended in a library call.
  The model cuts \<open>start_service\<close> once, after the validation and the first probe
  (lines 122 to 131) and before the script, the polling loop and the reconciliation
  (lines 133 to 160): \<open>start_probe\<close> is the first part, \<open>start_finish\<close> the second.
  A thread is \<open>Fresh\<close> before its first part, \<open>Probed\<close> between the two parts, and
  \<open>Finished\<close> with its answer afterwards.
\<close>

datatype start_thread = Fresh | Probed | Finished "exn + view_result"

definition start_probe :: "env \<Rightarrow> string \<Rightarrow> state \<Rightarrow> start_thread \<times> state" where
  "start_probe e service st =
     (if service \<noteq> ''nllb'' \<and> service \<noteq> ''ollama'' then (Finished (Inr invalid_service), st)
      else
        let (up, st1) = check_service_health e service st in
        if up then
          (Finished (Inr (Resp (JObj [(''success'', JBool True),
                            (''message'', JStr (service @ '' service is already running'')),
                            (''status'', JStr ''running'')]))), st1)
        else (Probed, st1))"

definition start_finish :: "env \<Rightarrow> string \<Rightarrow> state \<Rightarrow> (exn + view_result) \<times> state" where
  "start_finish e service st1 =
     (let script_path = PROJECT_DIR @ ''/llm-control/start-'' @ service @ ''.sh'';
          ((stdout, stderr, returncode), st2) = run_script e script_path st1
      in
      if returncode \<noteq> 0 then
        (Inr (RespCode (JObj [(''success'', JBool False),
                              (''error'', JStr (''Failed to start '' @ service @ '': '' @ stderr)),
                              (''stdout'', JStr stdout)]) 500), st2)
      else
        (case wait_ready e service 15 st2 of
           (True, st3) \<Rightarrow>
             (case update_service_status e st3 of
                (Inl ex, st4) \<Rightarrow> (Inl ex, st4)
              | (Inr u, st4) \<Rightarrow>
                  (Inr (Resp (JObj [(''success'', JBool True),
                                    (''message'', JStr (service @ '' service started successfully'')),
                                    (''status'', JStr ''running''),
                                    (''stdout'', JStr stdout)])), st4))
         | (False, st3) \<Rightarrow>
             (Inr (RespCode (JObj [(''success'', JBool False),
                                   (''error'', JStr (service @ '' service failed to start within timeout'')),
                                   (''stdout'', JStr stdout)]) 500), st3)))"

text \<open>One scheduling step of a thread: it runs its next part on the shared state.\<close>

fun step_start :: "env \<Rightarrow> string \<Rightarrow> start_thread \<Rightarrow> state \<Rightarrow> start_thread \<times> state" where
  "step_start e service Fresh st = start_probe e service st"
| "step_start e service Probed st =
     (let (r, st1) = start_finish e service st in (Finished r, st1))"
| "step_start e service (Finished r) st = (Finished r, st)"

text \<open>
  Two threads that both handle a start request for the same name, run in the order a
  schedule gives: \<open>False\<close> lets the first thread make its next step, \<open>True\<close> the second.
\<close>

fun interleave ::
  "env \<Rightarrow> string \<Rightarrow> bool list \<Rightarrow> (start_thread \<times> start_thread) \<times> state
     \<Rightarrow> (start_thread \<times> start_thread) \<times> state" where
  "interleave e service [] c = c"
| "interleave e service (second # sched) ((t1, t2), st) =
     (if second then
        (let (t2', st') = step_start e service t2 st
         in interleave e service sched ((t1, t2'), st'))
      else
        (let (t1', st') = step_start e service t1 st
         in interleave e service sched ((t1', t2), st')))"

text \<open>The number of script runs a thread can still make.\<close>

fun owed :: "start_thread \<Rightarrow> nat" where
  "owed Fresh = 1"
| "owed Probed = 1"
| "owed (Finished r) = 0"

subsection \<open>The registry invariant\<close>

text \<open>Every entry has a process identifier exactly when its status is \<open>running\<close>.\<close>

definition pid_matches_status :: "registry \<Rightarrow> bool" where
  "pid_matches_status reg =
     list_all (\<lambda>kv. (pid (snd kv) \<noteq> None) = (status (snd kv) = ''running'')) reg"

subsection \<open>Concrete environments\<close>

text \<open>
  \<open>env_down\<close>: nothing listens, every probe fails, every script exits 0.
  \<open>env_stuck\<close>: process 4242 listens on port 8000 and every probe is answered 200,
  whatever the scripts do. \<open>env_third\<close>: as \<open>env_stuck\<close>, but only from the
  fourth HTTP request on. \<open>env_timeout\<close>: every script times out.
  \<open>env_exit1\<close>: every script exits 1 and writes \<open>Script timed out\<close> to stderr.
\<close>

definition nllb_listener :: proc where
  "nllb_listener = \<lparr>proc_pid = 4242, connections = Some [\<lparr>laddr_port = 8000, conn_status = ''LISTEN''\<rparr>]\<rparr>"

definition env_down :: env where
  "env_down = \<lparr>requests_get = (\<lambda>n url. RequestException), process_iter = (\<lambda>n. []),
               subprocess_run = (\<lambda>n path. Completed ''done'' '''' 0)\<rparr>"

definition env_stuck :: env where
  "env_stuck = \<lparr>requests_get = (\<lambda>n url. HttpStatus 200), process_iter = (\<lambda>n. [nllb_listener]),
               subprocess_run = (\<lambda>n path. Completed ''done'' '''' 0)\<rparr>"

definition env_third :: env where
  "env_third = \<lparr>requests_get = (\<lambda>n url. if 3 \<le> n then HttpStatus 200 else HttpStatus 503),
               process_iter = (\<lambda>n. [nllb_listener]),
               subprocess_run = (\<lambda>n path. Completed ''done'' '''' 0)\<rparr>"

definition env_timeout :: env where
  "env_timeout = \<lparr>requests_get = (\<lambda>n url. RequestException), process_iter = (\<lambda>n. []),
               subprocess_run = (\<lambda>n path. TimeoutExpired)\<rparr>"

definition env_exit1 :: env where
  "env_exit1 = \<lparr>requests_get = (\<lambda>n url. RequestException), process_iter = (\<lambda>n. []),
               subprocess_run = (\<lambda>n path. Completed '''' ''Script timed out'' 1)\<rparr>"

section \<open>Facts about the helpers\<close>

lemma check_known:
  "service = ''nllb'' \<or> service = ''ollama'' \<Longrightarrow>
   check_service_health e service st =
     (probe_ok e service (gets st),
      st\<lparr>gets := Suc (gets st), trace := trace st @ [EvProbe service (probe_ok e service (gets st))]\<rparr>)"
  by (auto simp: check_service_health_def probe_ok_def health_url_def Let_def)

lemma check_unknown:
  "service \<noteq> ''nllb'' \<Longrightarrow> service \<noteq> ''ollama'' \<Longrightarrow> check_service_health e service st = (False, st)"
  by (simp add: check_service_health_def health_url_def)

lemma check_fields:
  "service_processes (snd (check_service_health e service st)) = service_processes st"
  "runs (snd (check_service_health e service st)) = runs st"
  "scans (snd (check_service_health e service st)) = scans st"
  by (simp_all add: check_service_health_def Let_def split: option.splits)

lemma check_trace:
  "trace (snd (check_service_health e service st)) =
     trace st @ (if health_url service = None then []
                 else [EvProbe service (fst (check_service_health e service st))])"
  by (simp add: check_service_health_def Let_def split: option.splits)

lemma check_true_trace:
  "fst (check_service_health e service st) \<Longrightarrow>
   trace (snd (check_service_health e service st)) = trace st @ [EvProbe service True]"
  by (simp add: check_service_health_def Let_def split: option.splits)

lemma scan_fields:
  "service_processes (snd (get_process_by_port e port st)) = service_processes st"
  "runs (snd (get_process_by_port e port st)) = runs st"
  "gets (snd (get_process_by_port e port st)) = gets st"
  "trace (snd (get_process_by_port e port st)) = trace st @ [EvScan port]"
  by (simp_all add: get_process_by_port_def)

lemma set_pid_status_fields:
  "runs (snd (set_pid_status service p s st)) = runs st"
  "gets (snd (set_pid_status service p s st)) = gets st"
  "scans (snd (set_pid_status service p s st)) = scans st"
  "trace (snd (set_pid_status service p s st)) = trace st"
  by (simp_all add: set_pid_status_def split: option.splits)

lemma update_present_keys:
  "map_of al k = Some v \<Longrightarrow> map fst (AList.update k v' al) = map fst al"
  by (induction al) (auto split: if_splits)

lemma same_keys: "map fst a = map fst b \<Longrightarrow> fst ` set a = fst ` set b"
  by (metis list.set_map)

lemma set_pid_status_keys:
  "map fst (service_processes (snd (set_pid_status service p s st))) = map fst (service_processes st)"
  by (simp add: set_pid_status_def update_present_keys split: option.splits)

lemma update_present_start_time:
  "map_of al k = Some en \<Longrightarrow> start_time en' = start_time en \<Longrightarrow>
   map (\<lambda>kv. start_time (snd kv)) (AList.update k en' al) = map (\<lambda>kv. start_time (snd kv)) al"
  by (induction al) (auto split: if_splits)

lemma set_pid_status_start_time:
  "map (\<lambda>kv. start_time (snd kv)) (service_processes (snd (set_pid_status service p s st)))
     = map (\<lambda>kv. start_time (snd kv)) (service_processes st)"
  by (simp add: set_pid_status_def update_present_start_time split: option.splits)

lemma set_pid_status_ok:
  "service \<in> fst ` set (service_processes st) \<Longrightarrow> fst (set_pid_status service p s st) = Inr ()"
  by (auto simp: set_pid_status_def map_of_eq_None_iff split: option.splits)


lemma list_all_update:
  "list_all P al \<Longrightarrow> P (k, v) \<Longrightarrow> list_all P (AList.update k v al)"
  by (induction al) auto

lemma set_pid_status_inv:
  "pid_matches_status (service_processes st) \<Longrightarrow> (p \<noteq> None) = (s = ''running'') \<Longrightarrow>
   pid_matches_status (service_processes (snd (set_pid_status service p s st)))"
  by (auto simp: set_pid_status_def pid_matches_status_def intro!: list_all_update split: option.splits)

lemma update_one_fields:
  "runs (snd (update_one e service st)) = runs st"
  "map fst (service_processes (snd (update_one e service st))) = map fst (service_processes st)"
  "map (\<lambda>kv. start_time (snd kv)) (service_processes (snd (update_one e service st)))
     = map (\<lambda>kv. start_time (snd kv)) (service_processes st)"
  by (simp_all add: update_one_def Let_def split_beta set_pid_status_fields set_pid_status_keys
        set_pid_status_start_time check_fields scan_fields)

lemma update_one_trace:
  "\<exists>evs. trace (snd (update_one e service st)) = trace st @ evs"
  by (simp add: update_one_def Let_def split_beta set_pid_status_fields check_trace scan_fields)

lemma update_one_inv:
  "pid_matches_status (service_processes st) \<Longrightarrow>
   pid_matches_status (service_processes (snd (update_one e service st)))"
  by (cases "find_listener (if service = ''nllb'' then 8000 else 8001) (process_iter e (scans st))")
     (auto simp: update_one_def Let_def split_beta get_process_by_port_def check_fields
           intro!: set_pid_status_inv)

lemma update_one_ok:
  "service \<in> fst ` set (service_processes st) \<Longrightarrow> fst (update_one e service st) = Inr ()"
  by (simp add: update_one_def Let_def split_beta set_pid_status_ok check_fields scan_fields)

lemma update_loop_fields:
  "runs (snd (update_loop e names st)) = runs st"
  "map fst (service_processes (snd (update_loop e names st))) = map fst (service_processes st)"
  "map (\<lambda>kv. start_time (snd kv)) (service_processes (snd (update_loop e names st)))
     = map (\<lambda>kv. start_time (snd kv)) (service_processes st)"
proof (induction names arbitrary: st)
  case Nil
  { case 1 show ?case by simp }
  { case 2 show ?case by simp }
  { case 3 show ?case by simp }
next
  case (Cons n ns)
  { case 1 show ?case
      using Cons(1) [of "snd (update_one e n st)"] update_one_fields(1) [of e n st]
      by (cases "update_one e n st") (auto split: sum.splits) }
  { case 2 show ?case
      using Cons(2) [of "snd (update_one e n st)"] update_one_fields(2) [of e n st]
      by (cases "update_one e n st") (auto split: sum.splits) }
  { case 3 show ?case
      using Cons(3) [of "snd (update_one e n st)"] update_one_fields(3) [of e n st]
      by (cases "update_one e n st") (auto split: sum.splits) }
qed

lemma update_loop_trace:
  "\<exists>evs. trace (snd (update_loop e names st)) = trace st @ evs"
proof (induction names arbitrary: st)
  case Nil
  show ?case by simp
next
  case (Cons n ns)
  obtain r st1 where u: "update_one e n st = (r, st1)" by (cases "update_one e n st")
  from update_one_trace [of e n st] u obtain evs1 where t1: "trace st1 = trace st @ evs1" by auto
  from Cons [of st1] obtain evs2 where t2: "trace (snd (update_loop e ns st1)) = trace st1 @ evs2" by auto
  show ?case using u t1 t2 by (cases r) auto
qed

lemma update_loop_inv:
  "pid_matches_status (service_processes st) \<Longrightarrow>
   pid_matches_status (service_processes (snd (update_loop e names st)))"
proof (induction names arbitrary: st)
  case Nil
  then show ?case by simp
next
  case (Cons n ns)
  obtain r st1 where u: "update_one e n st = (r, st1)" by (cases "update_one e n st")
  have "pid_matches_status (service_processes st1)"
    using update_one_inv [OF Cons.prems, of e n] u by simp
  from Cons.IH [OF this] show ?case using u Cons.prems update_one_inv [OF Cons.prems, of e n]
    by (cases r) auto
qed

lemma update_loop_ok:
  "set names \<subseteq> fst ` set (service_processes st) \<Longrightarrow> fst (update_loop e names st) = Inr ()"
proof (induction names arbitrary: st)
  case Nil
  then show ?case by simp
next
  case (Cons n ns)
  obtain r st1 where u: "update_one e n st = (r, st1)" by (cases "update_one e n st")
  have r: "r = Inr ()" using update_one_ok [of n st e] Cons.prems u by simp
  have "map fst (service_processes st1) = map fst (service_processes st)"
    using update_one_fields(2) [of e n st] u by simp
  then have "set ns \<subseteq> fst ` set (service_processes st1)"
    using Cons.prems same_keys [of "service_processes st1" "service_processes st"] by simp
  from Cons.IH [OF this] show ?case using u r by simp
qed

lemmas update_status_fields = update_loop_fields [of _ "[''nllb'', ''ollama'']", folded update_service_status_def]
lemmas update_status_trace = update_loop_trace [of _ "[''nllb'', ''ollama'']", folded update_service_status_def]
lemmas update_status_inv = update_loop_inv [of _ _ "[''nllb'', ''ollama'']", folded update_service_status_def]

lemma update_status_ok:
  "''nllb'' \<in> fst ` set (service_processes st) \<Longrightarrow>
   ''ollama'' \<in> fst ` set (service_processes st) \<Longrightarrow>
   fst (update_service_status e st) = Inr ()"
  unfolding update_service_status_def by (rule update_loop_ok) simp


lemmas model_defs =
  stop_service_def start_service_def restart_service_def get_services_status_def status_item_def
  run_script_def update_service_status_def update_one_def get_process_by_port_def
  check_service_health_def health_url_def set_pid_status_def time_sleep_def
  initial_state_def initial_registry_def PROJECT_DIR_def Let_def

section \<open>Unknown service names\<close>

text \<open>
  Claim C8. For a service name other than \<open>nllb\<close> and \<open>ollama\<close>, the start, stop and
  restart endpoints each answer with the body \<open>{'error': 'Invalid service'}\<close> and
  status 400, and the whole state is the one before the call: the registry is unchanged
  and no script, probe or port scan has been made.
\<close>

theorem unknown_service_rejected:
  assumes "service \<noteq> ''nllb''" and "service \<noteq> ''ollama''"
  shows "start_service e service st = (Inr invalid_service, st)
       \<and> stop_service e service st = (Inr invalid_service, st)
       \<and> restart_service e service st = (Inr invalid_service, st)
       \<and> http_status (Inr invalid_service) = 400"
  using assms
  by (simp add: start_service_def stop_service_def restart_service_def invalid_service_def)

theorem unknown_service_rejected_witness:
  "''gpt'' \<noteq> ''nllb'' \<and> ''gpt'' \<noteq> ''ollama''
   \<and> start_service env_stuck ''gpt'' initial_state = (Inr invalid_service, initial_state)
   \<and> stop_service env_stuck ''gpt'' initial_state = (Inr invalid_service, initial_state)
   \<and> restart_service env_stuck ''gpt'' initial_state = (Inr invalid_service, initial_state)
   \<and> http_status (Inr invalid_service) = 400"
  using unknown_service_rejected [of "''gpt''" env_stuck initial_state] by simp

section \<open>Start on a service that is already healthy\<close>

text \<open>
  Claim C4. For a known service whose health probe is positive at the start of
  \<open>start_service\<close>, the call answers success with status \<open>running\<close> (HTTP 200) after
  that single probe: no script is run and the registry is unchanged.
\<close>

theorem start_already_running:
  assumes "service = ''nllb'' \<or> service = ''ollama''"
    and "fst (check_service_health e service st)"
  shows "start_service e service st =
           (Inr (Resp (JObj [(''success'', JBool True),
                             (''message'', JStr (service @ '' service is already running'')),
                             (''status'', JStr ''running'')])),
            st\<lparr>gets := Suc (gets st), trace := trace st @ [EvProbe service True]\<rparr>)
       \<and> http_status (fst (start_service e service st)) = 200
       \<and> runs (snd (start_service e service st)) = runs st
       \<and> service_processes (snd (start_service e service st)) = service_processes st"
  using assms by (auto simp: start_service_def check_known)

theorem start_already_running_witness:
  "(''nllb'' = ''nllb'' \<or> ''nllb'' = ''ollama'')
   \<and> fst (check_service_health env_stuck ''nllb'' initial_state)
   \<and> start_service env_stuck ''nllb'' initial_state =
           (Inr (Resp (JObj [(''success'', JBool True),
                             (''message'', JStr (''nllb'' @ '' service is already running'')),
                             (''status'', JStr ''running'')])),
            initial_state\<lparr>gets := Suc (gets initial_state),
                           trace := trace initial_state @ [EvProbe ''nllb'' True]\<rparr>)
   \<and> runs (snd (start_service env_stuck ''nllb'' initial_state)) = runs initial_state
   \<and> service_processes (snd (start_service env_stuck ''nllb'' initial_state))
       = service_processes initial_state"
proof -
  have h: "fst (check_service_health env_stuck ''nllb'' initial_state)"
    by (simp add: check_service_health_def health_url_def env_stuck_def)
  from start_already_running [OF _ h] h show ?thesis by simp
qed

section \<open>Scripts that time out\<close>

text \<open>
  Claim C7, as stated, fails: \<open>run_script\<close> returns the same triple for a script that
  timed out and for a script that exited with code 1 after writing
  \<open>Script timed out\<close> to stderr, so \<open>start_service\<close> answers both in the same way.
\<close>

theorem script_timeout_same_as_exit_one:
  "subprocess_run env_timeout 0
       ''/home/jamil/projects/GlobalNews-Letter/llm-control/start-nllb.sh'' = TimeoutExpired
   \<and> subprocess_run env_exit1 0
       ''/home/jamil/projects/GlobalNews-Letter/llm-control/start-nllb.sh''
        = Completed '''' ''Script timed out'' 1
   \<and> run_script env_timeout
       ''/home/jamil/projects/GlobalNews-Letter/llm-control/start-nllb.sh'' initial_state
     = run_script env_exit1
       ''/home/jamil/projects/GlobalNews-Letter/llm-control/start-nllb.sh'' initial_state
   \<and> start_service env_timeout ''nllb'' initial_state
     = start_service env_exit1 ''nllb'' initial_state"
  by (simp add: model_defs env_timeout_def env_exit1_def)

text \<open>
  Claim C7, amended. When the script exceeds its timeout, \<open>run_script\<close> returns an empty
  stdout, the stderr text \<open>Script timed out\<close> and the return code 1: a failed result of
  the same shape as a non-zero exit.
\<close>

theorem script_timeout_is_exit_code_one:
  assumes "subprocess_run e (runs st) script_path = TimeoutExpired"
  shows "run_script e script_path st =
           (('''', ''Script timed out'', 1),
            st\<lparr>runs := Suc (runs st), trace := trace st @ [EvScript script_path]\<rparr>)"
  using assms by (simp add: run_script_def)

theorem script_timeout_is_exit_code_one_witness:
  "subprocess_run env_timeout (runs initial_state) ''stop-nllb.sh'' = TimeoutExpired
   \<and> run_script env_timeout ''stop-nllb.sh'' initial_state =
           (('''', ''Script timed out'', 1),
            initial_state\<lparr>runs := Suc (runs initial_state),
                           trace := trace initial_state @ [EvScript ''stop-nllb.sh'']\<rparr>)"
  using script_timeout_is_exit_code_one [of env_timeout initial_state "''stop-nllb.sh''"]
  by (simp add: env_timeout_def)

section \<open>Stop\<close>

text \<open>
  Claim C1, as stated, fails: with a stop script that exits 0 while process 4242 keeps
  listening on port 8000 and the health probe stays positive, \<open>stop_service\<close> answers
  success (HTTP 200) and reports the status \<open>running\<close>.
\<close>

theorem stop_reports_success_while_running:
  "stop_service env_stuck ''nllb'' initial_state =
     (Inr (Resp (JObj [(''success'', JBool True),
                       (''message'', JStr ''nllb service stopped successfully''),
                       (''status'', JStr ''running''),
                       (''stdout'', JStr ''done'')])),
      \<lparr>service_processes =
         [(''nllb'', \<lparr>pid = Some 4242, status = ''running'', start_time = None\<rparr>),
          (''ollama'', \<lparr>pid = None, status = ''stopped'', start_time = None\<rparr>)],
       gets = 1, scans = 2, runs = 1,
       trace = [EvScript ''/home/jamil/projects/GlobalNews-Letter/llm-control/stop-nllb.sh'',
                EvSleep 2, EvScan 8000, EvProbe ''nllb'' True, EvScan 8001]\<rparr>)"
  by (simp add: model_defs env_stuck_def nllb_listener_def)

text \<open>
  Claim C1, amended. For a known service (both names being keys of the registry),
  \<open>stop_service\<close> answers success exactly when the stop script returns code 0. It then
  sleeps two seconds, reconciles, and reports in the field \<open>status\<close> the reconciled
  status of the service, whichever it is. A non-zero return code gives a 500 answer
  carrying stderr and stdout, with no reconciliation.
\<close>

theorem stop_succeeds_iff_script_exits_zero:
  assumes known: "service = ''nllb'' \<or> service = ''ollama''"
    and nllb: "''nllb'' \<in> fst ` set (service_processes st)"
    and ollama: "''ollama'' \<in> fst ` set (service_processes st)"
    and script: "run_script e (PROJECT_DIR @ ''/llm-control/stop-'' @ service @ ''.sh'') st
                   = ((out, err, rc), st1)"
  shows "(rc \<noteq> 0 \<longrightarrow>
            stop_service e service st =
              (Inr (RespCode (JObj [(''success'', JBool False),
                                    (''error'', JStr (''Failed to stop '' @ service @ '': '' @ err)),
                                    (''stdout'', JStr out)]) 500), st1))
       \<and> (rc = 0 \<longrightarrow>
            (\<exists>en st2. update_service_status e (time_sleep 2 st1) = (Inr (), st2)
               \<and> map_of (service_processes st2) service = Some en
               \<and> stop_service e service st =
                   (Inr (Resp (JObj [(''success'', JBool True),
                                     (''message'', JStr (service @ '' service stopped successfully'')),
                                     (''status'', JStr (status en)),
                                     (''stdout'', JStr out)])), st2)))"
proof -
  let ?st = "time_sleep 2 st1"
  obtain r st2 where u: "update_service_status e ?st = (r, st2)"
    by (cases "update_service_status e ?st")
  have reg1: "service_processes ?st = service_processes st"
    using script by (auto simp: run_script_def time_sleep_def)
  have "fst (update_service_status e ?st) = Inr ()"
    by (rule update_status_ok) (simp_all add: reg1 nllb ollama)
  then have r: "r = Inr ()" using u by simp
  have keys: "map fst (service_processes st2) = map fst (service_processes st)"
    using update_status_fields(2) [of e ?st] u reg1 by simp
  have "service \<in> fst ` set (service_processes st2)"
    using known nllb ollama same_keys [OF keys] by auto
  then obtain en where en: "map_of (service_processes st2) service = Some en"
    by (cases "map_of (service_processes st2) service") (auto simp: map_of_eq_None_iff)
  show ?thesis
    using known script u r en by (auto simp: stop_service_def)
qed

theorem stop_succeeds_iff_script_exits_zero_witness:
  "(''nllb'' = ''nllb'' \<or> ''nllb'' = ''ollama'')
   \<and> ''nllb'' \<in> fst ` set (service_processes initial_state)
   \<and> ''ollama'' \<in> fst ` set (service_processes initial_state)
   \<and> fst (run_script env_stuck (PROJECT_DIR @ ''/llm-control/stop-'' @ ''nllb'' @ ''.sh'') initial_state)
        = (''done'', '''', 0)
   \<and> (\<exists>en st2. map_of (service_processes st2) ''nllb'' = Some en
         \<and> stop_service env_stuck ''nllb'' initial_state =
             (Inr (Resp (JObj [(''success'', JBool True),
                               (''message'', JStr (''nllb'' @ '' service stopped successfully'')),
                               (''status'', JStr (status en)),
                               (''stdout'', JStr ''done'')])), st2))"
proof -
  have f: "fst (run_script env_stuck (PROJECT_DIR @ ''/llm-control/stop-'' @ ''nllb'' @ ''.sh'') initial_state)
             = (''done'', '''', 0)"
    by (simp add: run_script_def env_stuck_def)
  then have s: "run_script env_stuck (PROJECT_DIR @ ''/llm-control/stop-'' @ ''nllb'' @ ''.sh'') initial_state
             = ((''done'', '''', 0),
                snd (run_script env_stuck (PROJECT_DIR @ ''/llm-control/stop-'' @ ''nllb'' @ ''.sh'') initial_state))"
    by (metis prod.collapse)
  have k: "''nllb'' \<in> fst ` set (service_processes initial_state)"
          "''ollama'' \<in> fst ` set (service_processes initial_state)"
    by (simp_all add: initial_state_def initial_registry_def)
  from stop_succeeds_iff_script_exits_zero [OF _ k s]
  have "\<exists>en st2. map_of (service_processes st2) ''nllb'' = Some en
         \<and> stop_service env_stuck ''nllb'' initial_state =
             (Inr (Resp (JObj [(''success'', JBool True),
                               (''message'', JStr (''nllb'' @ '' service stopped successfully'')),
                               (''status'', JStr (status en)),
                               (''stdout'', JStr ''done'')])), st2)"
    by blast
  with k f show ?thesis by blast
qed

section \<open>Restart\<close>

text \<open>
  Claim C2 at a failing input. Nothing listens, the probes fail and the stop script
  exits 0, so \<open>stop_service\<close> returns a bare response reporting success; then
  \<open>restart_service\<close> subscripts that response, which raises \<open>TypeError\<close>: the only
  script run is the stop script and \<open>start_service\<close> is not reached.
\<close>

theorem restart_after_clean_stop_raises:
  "fst (stop_service env_down ''nllb'' initial_state) =
     Inr (Resp (JObj [(''success'', JBool True),
                      (''message'', JStr ''nllb service stopped successfully''),
                      (''status'', JStr ''stopped''),
                      (''stdout'', JStr ''done'')]))
   \<and> restart_service env_down ''nllb'' initial_state =
       (Inl TypeError,
        \<lparr>service_processes = initial_registry, gets = 0, scans = 2, runs = 1,
         trace = [EvScript ''/home/jamil/projects/GlobalNews-Letter/llm-control/stop-nllb.sh'',
                  EvSleep 2, EvScan 8000, EvScan 8001]\<rparr>)"
  by (simp add: model_defs env_down_def)

text \<open>
  In general, for a known service, \<open>restart_service\<close> returns what \<open>stop_service\<close>
  returned when that is a tuple or an exception, and raises \<open>TypeError\<close> when it is a
  bare response; it never continues into \<open>start_service\<close>.
\<close>

lemma restart_never_starts:
  assumes "service = ''nllb'' \<or> service = ''ollama''"
  shows "restart_service e service st =
           (case stop_service e service st of
              (Inr (Resp body), st1) \<Rightarrow> (Inl TypeError, st1)
            | other \<Rightarrow> other)"
  using assms
  by (auto simp: restart_service_def stop_service_def Let_def
           split: prod.splits sum.splits option.splits)

section \<open>Status queries\<close>

text \<open>
  Claim C3, as stated, fails: from the initial registry, with process 4242 listening
  on port 8000 and positive probes, a status query changes the entry of \<open>nllb\<close> from
  stopped without a pid to running with pid 4242.
\<close>

theorem status_query_changes_registry:
  "map_of (service_processes initial_state) ''nllb''
     = Some \<lparr>pid = None, status = ''stopped'', start_time = None\<rparr>
   \<and> map_of (service_processes (snd (get_services_status env_stuck initial_state))) ''nllb''
     = Some \<lparr>pid = Some 4242, status = ''running'', start_time = None\<rparr>"
  by (simp add: model_defs env_stuck_def nllb_listener_def)

lemma status_item_fields:
  "service_processes (snd (status_item e service port endpoint st)) = service_processes st"
  "runs (snd (status_item e service port endpoint st)) = runs st"
  by (simp_all add: status_item_def split_beta check_fields split: option.splits)

lemma get_services_status_registry:
  "service_processes (snd (get_services_status e st))
     = service_processes (snd (update_service_status e st))"
  "runs (snd (get_services_status e st)) = runs st"
proof -
  obtain r st1 where u: "update_service_status e st = (r, st1)"
    by (cases "update_service_status e st")
  obtain a st2 where i1: "status_item e ''nllb'' 8000 ''http://localhost:8000'' st1 = (a, st2)"
    by (cases "status_item e ''nllb'' 8000 ''http://localhost:8000'' st1")
  obtain b st3 where i2: "status_item e ''ollama'' 8001 ''http://localhost:8001'' st2 = (b, st3)"
    by (cases "status_item e ''ollama'' 8001 ''http://localhost:8001'' st2")
  have f1: "service_processes st2 = service_processes st1" "runs st2 = runs st1"
    using status_item_fields [of e "''nllb''" 8000 "''http://localhost:8000''" st1] i1 by simp_all
  have f2: "service_processes st3 = service_processes st2" "runs st3 = runs st2"
    using status_item_fields [of e "''ollama''" 8001 "''http://localhost:8001''" st2] i2 by simp_all
  have f0: "runs st1 = runs st" using update_status_fields(1) [of e st] u by simp
  show "service_processes (snd (get_services_status e st))
     = service_processes (snd (update_service_status e st))"
    using u i1 i2 f1 f2 by (simp add: get_services_status_def split: sum.splits)
  show "runs (snd (get_services_status e st)) = runs st"
    using u i1 i2 f1 f2 f0 by (simp add: get_services_status_def split: sum.splits)
qed

text \<open>
  Claim C3, amended. A status query runs no script and leaves the names of the registry
  and every \<open>start_time\<close> unchanged; the registry after the query is the one that
  \<open>update_service_status\<close> produces, so \<open>status\<close> and \<open>pid\<close> change only by being
  overwritten with the result of the reconciliation.
\<close>

theorem status_query_only_reconciles:
  "service_processes (snd (get_services_status e st))
     = service_processes (snd (update_service_status e st))
   \<and> map fst (service_processes (snd (get_services_status e st))) = map fst (service_processes st)
   \<and> map (\<lambda>kv. start_time (snd kv)) (service_processes (snd (get_services_status e st)))
       = map (\<lambda>kv. start_time (snd kv)) (service_processes st)
   \<and> runs (snd (get_services_status e st)) = runs st"
  by (simp add: get_services_status_registry update_status_fields)

section \<open>Start: success and the polling loop\<close>

lemma wait_ready_fields:
  "service_processes (snd (wait_ready e service n st)) = service_processes st"
  "runs (snd (wait_ready e service n st)) = runs st"
proof (induction n arbitrary: st)
  case 0
  { case 1 show ?case by simp }
  { case 2 show ?case by simp }
next
  case (Suc n)
  { case 1 show ?case
      using Suc(1) [of "snd (check_service_health e service (time_sleep 2 st))"]
            check_fields(1) [of e service "time_sleep 2 st"]
      by (cases "check_service_health e service (time_sleep 2 st)") (auto simp: time_sleep_def) }
  { case 2 show ?case
      using Suc(2) [of "snd (check_service_health e service (time_sleep 2 st))"]
            check_fields(2) [of e service "time_sleep 2 st"]
      by (cases "check_service_health e service (time_sleep 2 st)") (auto simp: time_sleep_def) }
qed

lemma wait_ready_true:
  "wait_ready e service n st = (True, st') \<Longrightarrow>
   \<exists>evs. trace st' = trace st @ evs \<and> EvProbe service True \<in> set evs"
proof (induction n arbitrary: st)
  case 0
  then show ?case by simp
next
  case (Suc n)
  let ?st1 = "time_sleep 2 st"
  obtain ok st2 where c: "check_service_health e service ?st1 = (ok, st2)"
    by (cases "check_service_health e service ?st1")
  show ?case
  proof (cases ok)
    case True
    then have "st' = st2" using Suc.prems c by simp
    moreover have "trace st2 = trace ?st1 @ [EvProbe service True]"
      using check_true_trace [of e service ?st1] c True by simp
    ultimately have "trace st' = trace st @ [EvSleep 2, EvProbe service True]"
      by (simp add: time_sleep_def)
    then show ?thesis by (intro exI [of _ "[EvSleep 2, EvProbe service True]"]) simp
  next
    case False
    then have "wait_ready e service n st2 = (True, st')" using Suc.prems c by simp
    from Suc.IH [OF this] obtain evs
      where e1: "trace st' = trace st2 @ evs" and e2: "EvProbe service True \<in> set evs" by auto
    obtain evs0 where e0: "trace st2 = trace ?st1 @ evs0"
      using check_trace [of e service ?st1] c by simp
    have "trace st' = trace st @ (EvSleep 2 # evs0 @ evs)"
      using e0 e1 by (simp add: time_sleep_def)
    then show ?thesis using e2 by (intro exI [of _ "EvSleep 2 # evs0 @ evs"]) simp
  qed
qed

text \<open>
  Claim C5. Whenever \<open>start_service\<close> returns a response whose field \<open>success\<close>
  is true, the calls it made during that invocation include a health probe of that
  service that was answered positively.
\<close>

theorem start_success_needs_positive_probe:
  assumes ret: "start_service e service st = (Inr r, st')"
    and succ: "truthy (json_get (body_of (Inr r)) ''success'' (JBool False))"
  shows "\<exists>evs. trace st' = trace st @ evs \<and> EvProbe service True \<in> set evs"
proof -
  have known: "service = ''nllb'' \<or> service = ''ollama''"
  proof (rule ccontr)
    assume "\<not> ?thesis"
    then have "r = invalid_service" using ret by (simp add: start_service_def)
    then show False using succ by (simp add: invalid_service_def)
  qed
  obtain up st1 where c: "check_service_health e service st = (up, st1)"
    by (cases "check_service_health e service st")
  show ?thesis
  proof (cases up)
    case True
    then have "st' = st1" using ret c known by (auto simp: start_service_def)
    moreover have "trace st1 = trace st @ [EvProbe service True]"
      using check_true_trace [of e service st] c True by simp
    ultimately show ?thesis by (intro exI [of _ "[EvProbe service True]"]) simp
  next
    case False
    let ?path = "PROJECT_DIR @ ''/llm-control/start-'' @ service @ ''.sh''"
    obtain out err rc st2 where rs: "run_script e ?path st1 = ((out, err, rc), st2)"
      by (cases "run_script e ?path st1") auto
    obtain b st3 where w: "wait_ready e service 15 st2 = (b, st3)"
      by (cases "wait_ready e service 15 st2")
    obtain r4 st4 where u: "update_service_status e st3 = (r4, st4)"
      by (cases "update_service_status e st3")
    have rc: "rc = 0"
      using ret succ c False known rs by (auto simp: start_service_def split: if_splits)
    have b: "b"
      using ret succ c False known rs rc w by (cases b) (auto simp: start_service_def)
    have st': "st' = st4"
      using ret c False known rs rc w b u by (auto simp: start_service_def split: sum.splits)
    obtain evs0 where t1: "trace st1 = trace st @ evs0"
      using check_trace [of e service st] c by simp
    have t2: "trace st2 = trace st1 @ [EvScript ?path]"
      using rs by (auto simp: run_script_def)
    from wait_ready_true [of e service 15 st2 st3] w b obtain evs3
      where t3: "trace st3 = trace st2 @ evs3" and p: "EvProbe service True \<in> set evs3" by auto
    obtain evs4 where t4: "trace st4 = trace st3 @ evs4"
      using update_status_trace [of e st3] u by auto
    have "trace st' = trace st @ (evs0 @ [EvScript ?path] @ evs3 @ evs4)"
      using st' t1 t2 t3 t4 by simp
    then show ?thesis using p
      by (intro exI [of _ "evs0 @ [EvScript ?path] @ evs3 @ evs4"]) simp
  qed
qed

theorem start_success_needs_positive_probe_witness:
  "start_service env_stuck ''nllb'' initial_state =
     (Inr (Resp (JObj [(''success'', JBool True),
                       (''message'', JStr ''nllb service is already running''),
                       (''status'', JStr ''running'')])),
      initial_state\<lparr>gets := 1, trace := [EvProbe ''nllb'' True]\<rparr>)
   \<and> truthy (json_get (body_of (Inr (Resp (JObj [(''success'', JBool True),
                       (''message'', JStr ''nllb service is already running''),
                       (''status'', JStr ''running'')])))) ''success'' (JBool False))
   \<and> (\<exists>evs. trace (initial_state\<lparr>gets := 1, trace := [EvProbe ''nllb'' True]\<rparr>)
                = trace initial_state @ evs \<and> EvProbe ''nllb'' True \<in> set evs)"
proof -
  have r: "start_service env_stuck ''nllb'' initial_state =
     (Inr (Resp (JObj [(''success'', JBool True),
                       (''message'', JStr ''nllb service is already running''),
                       (''status'', JStr ''running'')])),
      initial_state\<lparr>gets := 1, trace := [EvProbe ''nllb'' True]\<rparr>)"
    by (simp add: model_defs env_stuck_def)
  have s: "truthy (json_get (body_of (Inr (Resp (JObj [(''success'', JBool True),
                       (''message'', JStr ''nllb service is already running''),
                       (''status'', JStr ''running'')])))) ''success'' (JBool False))"
    by simp
  from start_success_needs_positive_probe [OF r s] r s show ?thesis by blast
qed

lemma wait_ready_exhausted:
  assumes "service = ''nllb'' \<or> service = ''ollama''"
  shows "(\<And>i. i < n \<Longrightarrow> \<not> probe_ok e service (gets st + i)) \<Longrightarrow>
         wait_ready e service n st =
           (False, st\<lparr>gets := gets st + n,
                      trace := trace st @ concat (replicate n [EvSleep 2, EvProbe service False])\<rparr>)"
proof (induction n arbitrary: st)
  case 0
  show ?case by simp
next
  case (Suc n)
  let ?st2 = "st\<lparr>gets := Suc (gets st), trace := trace st @ [EvSleep 2, EvProbe service False]\<rparr>"
  have p0: "\<not> probe_ok e service (gets st)" using Suc.prems [of 0] by simp
  have c: "check_service_health e service (time_sleep 2 st) = (False, ?st2)"
    using p0 by (simp add: check_known [OF assms] time_sleep_def)
  have "\<And>i. i < n \<Longrightarrow> \<not> probe_ok e service (gets ?st2 + i)"
    using Suc.prems [of "Suc _"] by simp
  from Suc.IH [OF this] c show ?case by simp
qed

lemma wait_ready_found:
  assumes "service = ''nllb'' \<or> service = ''ollama''"
  shows "k < n \<Longrightarrow> (\<And>i. i < k \<Longrightarrow> \<not> probe_ok e service (gets st + i)) \<Longrightarrow>
         probe_ok e service (gets st + k) \<Longrightarrow>
         wait_ready e service n st =
           (True, st\<lparr>gets := gets st + k + 1,
                     trace := trace st @ concat (replicate k [EvSleep 2, EvProbe service False])
                                       @ [EvSleep 2, EvProbe service True]\<rparr>)"
proof (induction k arbitrary: n st)
  case 0
  then obtain m where n: "n = Suc m" by (cases n) auto
  have "check_service_health e service (time_sleep 2 st) =
          (True, st\<lparr>gets := Suc (gets st), trace := trace st @ [EvSleep 2, EvProbe service True]\<rparr>)"
    using 0(3) by (simp add: check_known [OF assms] time_sleep_def)
  then show ?case using n by simp
next
  case (Suc k)
  then obtain m where n: "n = Suc m" and km: "k < m" by (cases n) auto
  let ?st2 = "st\<lparr>gets := Suc (gets st), trace := trace st @ [EvSleep 2, EvProbe service False]\<rparr>"
  have p0: "\<not> probe_ok e service (gets st)" using Suc.prems(2) [of 0] by simp
  have c: "check_service_health e service (time_sleep 2 st) = (False, ?st2)"
    using p0 by (simp add: check_known [OF assms] time_sleep_def)
  have a: "\<And>i. i < k \<Longrightarrow> \<not> probe_ok e service (gets ?st2 + i)"
    using Suc.prems(2) [of "Suc _"] by simp
  have b: "probe_ok e service (gets ?st2 + k)" using Suc.prems(3) by simp
  from Suc.IH [OF km a b] c n show ?case by simp
qed

text \<open>
  Claim C6. For a known service (both names being keys of the registry) whose first
  probe is negative and whose start script completes with return code 0,
  \<open>start_service\<close> sleeps two seconds before each of at most 15 further probes. If
  all 15 are negative it answers 500 with the error
  \<open>service failed to start within timeout\<close>, after exactly 15 rounds. If round
  \<open>k + 1\<close> (with \<open>k < 15\<close>) is the first positive one, it stops polling there,
  reconciles, and answers success with status \<open>running\<close>.
\<close>

theorem start_polls_up_to_fifteen_times:
  assumes known: "service = ''nllb'' \<or> service = ''ollama''"
    and nllb: "''nllb'' \<in> fst ` set (service_processes st)"
    and ollama: "''ollama'' \<in> fst ` set (service_processes st)"
    and down: "\<not> probe_ok e service (gets st)"
    and script: "subprocess_run e (runs st) (PROJECT_DIR @ ''/llm-control/start-'' @ service @ ''.sh'')
                   = Completed out err 0"
  shows "((\<forall>i<15. \<not> probe_ok e service (Suc (gets st) + i)) \<longrightarrow>
            start_service e service st =
              (Inr (RespCode (JObj [(''success'', JBool False),
                                    (''error'', JStr (service @ '' service failed to start within timeout'')),
                                    (''stdout'', JStr out)]) 500),
               st\<lparr>gets := gets st + 16, runs := Suc (runs st),
                  trace := trace st
                    @ [EvProbe service False,
                       EvScript (PROJECT_DIR @ ''/llm-control/start-'' @ service @ ''.sh'')]
                    @ concat (replicate 15 [EvSleep 2, EvProbe service False])\<rparr>))
       \<and> (k < 15 \<and> (\<forall>i<k. \<not> probe_ok e service (Suc (gets st) + i))
            \<and> probe_ok e service (Suc (gets st) + k) \<longrightarrow>
            start_service e service st =
              (Inr (Resp (JObj [(''success'', JBool True),
                                (''message'', JStr (service @ '' service started successfully'')),
                                (''status'', JStr ''running''),
                                (''stdout'', JStr out)])),
               snd (update_service_status e
                 (st\<lparr>gets := gets st + k + 2, runs := Suc (runs st),
                     trace := trace st
                       @ [EvProbe service False,
                          EvScript (PROJECT_DIR @ ''/llm-control/start-'' @ service @ ''.sh'')]
                       @ concat (replicate k [EvSleep 2, EvProbe service False])
                       @ [EvSleep 2, EvProbe service True]\<rparr>))))"
proof -
  let ?path = "PROJECT_DIR @ ''/llm-control/start-'' @ service @ ''.sh''"
  let ?st1 = "st\<lparr>gets := Suc (gets st), trace := trace st @ [EvProbe service False]\<rparr>"
  let ?st2 = "st\<lparr>gets := Suc (gets st), runs := Suc (runs st),
                 trace := trace st @ [EvProbe service False, EvScript ?path]\<rparr>"
  have c: "check_service_health e service st = (False, ?st1)"
    using down by (simp add: check_known [OF known])
  have rs: "run_script e ?path ?st1 = ((out, err, 0), ?st2)"
    using script by (simp add: run_script_def)
  have start: "start_service e service st =
      (case wait_ready e service 15 ?st2 of
         (True, st3) \<Rightarrow>
           (case update_service_status e st3 of
              (Inl ex, st4) \<Rightarrow> (Inl ex, st4)
            | (Inr u, st4) \<Rightarrow>
                (Inr (Resp (JObj [(''success'', JBool True),
                                  (''message'', JStr (service @ '' service started successfully'')),
                                  (''status'', JStr ''running''),
                                  (''stdout'', JStr out)])), st4))
       | (False, st3) \<Rightarrow>
           (Inr (RespCode (JObj [(''success'', JBool False),
                                 (''error'', JStr (service @ '' service failed to start within timeout'')),
                                 (''stdout'', JStr out)]) 500), st3))"
    using known c rs by (auto simp: start_service_def)
  have part1: "start_service e service st =
              (Inr (RespCode (JObj [(''success'', JBool False),
                                    (''error'', JStr (service @ '' service failed to start within timeout'')),
                                    (''stdout'', JStr out)]) 500),
               st\<lparr>gets := gets st + 16, runs := Suc (runs st),
                  trace := trace st @ [EvProbe service False, EvScript ?path]
                    @ concat (replicate 15 [EvSleep 2, EvProbe service False])\<rparr>)"
    if h: "\<forall>i<15. \<not> probe_ok e service (Suc (gets st) + i)"
  proof -
    have "\<And>i. i < 15 \<Longrightarrow> \<not> probe_ok e service (gets ?st2 + i)" using h by simp
    from wait_ready_exhausted [OF known this] show ?thesis
      by (simp add: start)
  qed
  have part2: "start_service e service st =
              (Inr (Resp (JObj [(''success'', JBool True),
                                (''message'', JStr (service @ '' service started successfully'')),
                                (''status'', JStr ''running''),
                                (''stdout'', JStr out)])),
               snd (update_service_status e
                 (st\<lparr>gets := gets st + k + 2, runs := Suc (runs st),
                     trace := trace st @ [EvProbe service False, EvScript ?path]
                       @ concat (replicate k [EvSleep 2, EvProbe service False])
                       @ [EvSleep 2, EvProbe service True]\<rparr>)))"
    if k: "k < 15" and h: "\<forall>i<k. \<not> probe_ok e service (Suc (gets st) + i)"
      and p: "probe_ok e service (Suc (gets st) + k)"
  proof -
    let ?st3 = "st\<lparr>gets := gets st + k + 2, runs := Suc (runs st),
                     trace := trace st @ [EvProbe service False, EvScript ?path]
                       @ concat (replicate k [EvSleep 2, EvProbe service False])
                       @ [EvSleep 2, EvProbe service True]\<rparr>"
    have a: "\<And>i. i < k \<Longrightarrow> \<not> probe_ok e service (gets ?st2 + i)" using h by simp
    have b: "probe_ok e service (gets ?st2 + k)" using p by simp
    have w: "wait_ready e service 15 ?st2 = (True, ?st3)"
      using wait_ready_found [OF known k a b] by simp
    have s2: "start_service e service st =
        (case update_service_status e ?st3 of
           (Inl ex, st4) \<Rightarrow> (Inl ex, st4)
         | (Inr u, st4) \<Rightarrow>
             (Inr (Resp (JObj [(''success'', JBool True),
                               (''message'', JStr (service @ '' service started successfully'')),
                               (''status'', JStr ''running''),
                               (''stdout'', JStr out)])), st4))"
      unfolding start w by simp
    have "fst (update_service_status e ?st3) = Inr ()"
      by (rule update_status_ok) (simp_all add: nllb ollama)
    with s2 show ?thesis
      by (cases "update_service_status e ?st3") auto
  qed
  show ?thesis using part1 part2 by blast
qed

theorem start_polls_up_to_fifteen_times_witness:
  "\<not> probe_ok env_down ''nllb'' (gets initial_state)
   \<and> \<not> probe_ok env_down ''nllb'' 15
   \<and> start_service env_down ''nllb'' initial_state =
       (Inr (RespCode (JObj [(''success'', JBool False),
                             (''error'', JStr ''nllb service failed to start within timeout''),
                             (''stdout'', JStr ''done'')]) 500),
        \<lparr>service_processes = initial_registry, gets = 16, scans = 0, runs = 1,
         trace = [EvProbe ''nllb'' False,
                  EvScript ''/home/jamil/projects/GlobalNews-Letter/llm-control/start-nllb.sh'']
                 @ concat (replicate 15 [EvSleep 2, EvProbe ''nllb'' False])\<rparr>)
   \<and> \<not> probe_ok env_third ''nllb'' (gets initial_state)
   \<and> \<not> probe_ok env_third ''nllb'' 1
   \<and> \<not> probe_ok env_third ''nllb'' 2
   \<and> probe_ok env_third ''nllb'' 3
   \<and> start_service env_third ''nllb'' initial_state =
       (Inr (Resp (JObj [(''success'', JBool True),
                         (''message'', JStr ''nllb service started successfully''),
                         (''status'', JStr ''running''),
                         (''stdout'', JStr ''done'')])),
        \<lparr>service_processes =
           [(''nllb'', \<lparr>pid = Some 4242, status = ''running'', start_time = None\<rparr>),
            (''ollama'', \<lparr>pid = None, status = ''stopped'', start_time = None\<rparr>)],
         gets = 5, scans = 2, runs = 1,
         trace = [EvProbe ''nllb'' False,
                  EvScript ''/home/jamil/projects/GlobalNews-Letter/llm-control/start-nllb.sh'',
                  EvSleep 2, EvProbe ''nllb'' False, EvSleep 2, EvProbe ''nllb'' False,
                  EvSleep 2, EvProbe ''nllb'' True,
                  EvScan 8000, EvProbe ''nllb'' True, EvScan 8001]\<rparr>)"
proof -
  have k: "''nllb'' \<in> fst ` set (service_processes initial_state)"
          "''ollama'' \<in> fst ` set (service_processes initial_state)"
    by (simp_all add: initial_state_def initial_registry_def)
  have d0: "\<not> probe_ok env_down ''nllb'' (gets initial_state)"
    and d1: "\<forall>i<15. \<not> probe_ok env_down ''nllb'' (Suc (gets initial_state) + i)"
    and ds: "subprocess_run env_down (runs initial_state)
               (PROJECT_DIR @ ''/llm-control/start-'' @ ''nllb'' @ ''.sh'') = Completed ''done'' '''' 0"
    by (simp_all add: probe_ok_def health_url_def env_down_def)
  have t0: "\<not> probe_ok env_third ''nllb'' (gets initial_state)"
    and t1: "\<forall>i<2. \<not> probe_ok env_third ''nllb'' (Suc (gets initial_state) + i)"
    and t2: "probe_ok env_third ''nllb'' (Suc (gets initial_state) + 2)"
    and ts: "subprocess_run env_third (runs initial_state)
               (PROJECT_DIR @ ''/llm-control/start-'' @ ''nllb'' @ ''.sh'') = Completed ''done'' '''' 0"
    by (auto simp: probe_ok_def health_url_def env_third_def initial_state_def)
  have a: "start_service env_down ''nllb'' initial_state =
       (Inr (RespCode (JObj [(''success'', JBool False),
                             (''error'', JStr ''nllb service failed to start within timeout''),
                             (''stdout'', JStr ''done'')]) 500),
        \<lparr>service_processes = initial_registry, gets = 16, scans = 0, runs = 1,
         trace = [EvProbe ''nllb'' False,
                  EvScript ''/home/jamil/projects/GlobalNews-Letter/llm-control/start-nllb.sh'']
                 @ concat (replicate 15 [EvSleep 2, EvProbe ''nllb'' False])\<rparr>)"
    using start_polls_up_to_fifteen_times [OF _ k d0 ds, of 0] d1
    by (simp add: initial_state_def PROJECT_DIR_def)
  have b: "start_service env_third ''nllb'' initial_state =
       (Inr (Resp (JObj [(''success'', JBool True),
                         (''message'', JStr ''nllb service started successfully''),
                         (''status'', JStr ''running''),
                         (''stdout'', JStr ''done'')])),
        \<lparr>service_processes =
           [(''nllb'', \<lparr>pid = Some 4242, status = ''running'', start_time = None\<rparr>),
            (''ollama'', \<lparr>pid = None, status = ''stopped'', start_time = None\<rparr>)],
         gets = 5, scans = 2, runs = 1,
         trace = [EvProbe ''nllb'' False,
                  EvScript ''/home/jamil/projects/GlobalNews-Letter/llm-control/start-nllb.sh'',
                  EvSleep 2, EvProbe ''nllb'' False, EvSleep 2, EvProbe ''nllb'' False,
                  EvSleep 2, EvProbe ''nllb'' True,
                  EvScan 8000, EvProbe ''nllb'' True, EvScan 8001]\<rparr>)"
    using start_polls_up_to_fifteen_times [OF _ k t0 ts, of 2] t1 t2
    by (simp add: initial_state_def initial_registry_def PROJECT_DIR_def numeral_2_eq_2
          update_service_status_def update_one_def get_process_by_port_def
          check_service_health_def health_url_def set_pid_status_def
          env_third_def nllb_listener_def Let_def)
  have p: "\<not> probe_ok env_down ''nllb'' 15" "\<not> probe_ok env_third ''nllb'' 1"
    "\<not> probe_ok env_third ''nllb'' 2" "probe_ok env_third ''nllb'' 3"
    by (simp_all add: probe_ok_def health_url_def env_down_def env_third_def)
  from a b d0 t0 p show ?thesis by simp
qed

section \<open>The registry invariant over runs of the server\<close>

lemma start_inv:
  assumes "pid_matches_status (service_processes st)"
  shows "pid_matches_status (service_processes (snd (start_service e service st)))"
proof -
  let ?path = "PROJECT_DIR @ ''/llm-control/start-'' @ service @ ''.sh''"
  obtain up st1 where c: "check_service_health e service st = (up, st1)"
    by (cases "check_service_health e service st")
  obtain out err rc st2 where rs: "run_script e ?path st1 = ((out, err, rc), st2)"
    by (cases "run_script e ?path st1") auto
  obtain b st3 where w: "wait_ready e service 15 st2 = (b, st3)"
    by (cases "wait_ready e service 15 st2")
  obtain r4 st4 where u: "update_service_status e st3 = (r4, st4)"
    by (cases "update_service_status e st3")
  have r1: "service_processes st1 = service_processes st"
    using check_fields(1) [of e service st] c by simp
  have r2: "service_processes st2 = service_processes st1"
    using rs by (auto simp: run_script_def)
  have r3: "service_processes st3 = service_processes st2"
    using wait_ready_fields(1) [of e service 15 st2] w by simp
  have i4: "pid_matches_status (service_processes st4)"
    using update_status_inv [of st3 e] u assms r1 r2 r3 by simp
  show ?thesis
    using assms c rs w u r1 r2 r3 i4
    by (cases b; cases r4) (auto simp: start_service_def)
qed

lemma stop_inv:
  assumes "pid_matches_status (service_processes st)"
  shows "pid_matches_status (service_processes (snd (stop_service e service st)))"
proof -
  let ?path = "PROJECT_DIR @ ''/llm-control/stop-'' @ service @ ''.sh''"
  obtain out err rc st1 where rs: "run_script e ?path st = ((out, err, rc), st1)"
    by (cases "run_script e ?path st") auto
  obtain r2 st2 where u: "update_service_status e (time_sleep 2 st1) = (r2, st2)"
    by (cases "update_service_status e (time_sleep 2 st1)")
  have r1: "service_processes st1 = service_processes st"
    using rs by (auto simp: run_script_def)
  have i2: "pid_matches_status (service_processes st2)"
    using update_status_inv [of "time_sleep 2 st1" e] u assms r1 by (simp add: time_sleep_def)
  show ?thesis
    using assms rs u r1 i2
    by (cases r2) (auto simp: stop_service_def split: option.splits)
qed

lemma restart_state: "snd (restart_service e service st) = snd (stop_service e service st)"
proof (cases "service = ''nllb'' \<or> service = ''ollama''")
  case True
  from restart_never_starts [OF True, of e st] show ?thesis
    by (auto split: prod.splits sum.splits view_result.splits)
next
  case False
  then show ?thesis by (simp add: restart_service_def stop_service_def)
qed

lemma handle_inv:
  assumes "pid_matches_status (service_processes st)"
  shows "pid_matches_status (service_processes (snd (handle e r st)))"
proof (cases r)
  case GetHealth
  then show ?thesis using assms by (simp add: health_def)
next
  case GetStatus
  then show ?thesis
    using assms update_status_inv [of st e] by (simp add: get_services_status_registry)
next
  case (PostStart s)
  then show ?thesis using start_inv [OF assms] by simp
next
  case (PostStop s)
  then show ?thesis using stop_inv [OF assms] by simp
next
  case (PostRestart s)
  then show ?thesis using stop_inv [OF assms] by (simp add: restart_state)
qed

lemma serve_inv:
  "pid_matches_status (service_processes st) \<Longrightarrow>
   pid_matches_status (service_processes (serve e rs st))"
  by (induction rs arbitrary: st) (simp_all add: handle_inv)

lemma initial_inv: "pid_matches_status (service_processes initial_state)"
  by (simp add: pid_matches_status_def initial_state_def initial_registry_def)

lemma boot_inv: "pid_matches_status (service_processes (boot e))"
  unfolding boot_def by (rule update_status_inv [OF initial_inv])

text \<open>
  Claim C10. Starting from the initial registry, or from the registry after the main
  block's first reconciliation, and after any sequence of requests, every entry of the
  registry has a process identifier exactly when its status is \<open>running\<close>.
\<close>

theorem pid_set_iff_running:
  assumes "st0 = initial_state \<or> st0 = boot e"
    and "(name, en) \<in> set (service_processes (serve e rs st0))"
  shows "(pid en \<noteq> None) = (status en = ''running'')"
proof -
  have "pid_matches_status (service_processes st0)"
    using assms(1) initial_inv boot_inv by auto
  then have "pid_matches_status (service_processes (serve e rs st0))"
    by (rule serve_inv)
  then show ?thesis
    using assms(2) by (auto simp: pid_matches_status_def list_all_iff)
qed

theorem pid_set_iff_running_witness:
  "(initial_state = initial_state \<or> initial_state = boot env_stuck)
   \<and> (''nllb'', \<lparr>pid = Some 4242, status = ''running'', start_time = None\<rparr>)
        \<in> set (service_processes (serve env_stuck [GetStatus] initial_state))
   \<and> (pid \<lparr>pid = Some 4242, status = ''running'', start_time = None\<rparr> \<noteq> None)
       = (status \<lparr>pid = Some 4242, status = ''running'', start_time = None\<rparr> = ''running'')"
proof -
  have m: "(''nllb'', \<lparr>pid = Some 4242, status = ''running'', start_time = None\<rparr>)
        \<in> set (service_processes (serve env_stuck [GetStatus] initial_state))"
    by (simp add: model_defs env_stuck_def nllb_listener_def)
  from pid_set_iff_running [OF _ m] m show ?thesis by simp
qed

section \<open>Two overlapping start requests\<close>

text \<open>
  Running the two parts of \<open>start_service\<close> one after the other is
  \<open>start_service\<close>: the cut loses nothing.
\<close>

lemma start_service_split:
  "start_service e service st =
     (case start_probe e service st of
        (Finished r, st1) \<Rightarrow> (r, st1)
      | (t, st1) \<Rightarrow> start_finish e service st1)"
proof -
  obtain up st1 where c: "check_service_health e service st = (up, st1)"
    by (cases "check_service_health e service st")
  consider (u) "service \<noteq> ''nllb'' \<and> service \<noteq> ''ollama''"
    | (n) "service = ''nllb''" | (o) "service = ''ollama''"
    by blast
  then show ?thesis
  proof cases
    case u
    then show ?thesis by (simp add: start_service_def start_probe_def)
  next
    case n
    then show ?thesis
      using c by (cases up) (simp_all add: start_service_def start_probe_def start_finish_def)
  next
    case o
    then show ?thesis
      using c by (cases up) (simp_all add: start_service_def start_probe_def start_finish_def)
  qed
qed

lemma start_probe_runs: "runs (snd (start_probe e service st)) = runs st"
  by (simp add: start_probe_def split_beta check_fields)

lemma start_probe_owed: "owed (fst (start_probe e service st)) \<le> 1"
  by (simp add: start_probe_def split_beta)

lemma start_finish_runs: "runs (snd (start_finish e service st)) = Suc (runs st)"
proof -
  let ?path = "PROJECT_DIR @ ''/llm-control/start-'' @ service @ ''.sh''"
  obtain out err rc st2 where rs: "run_script e ?path st = ((out, err, rc), st2)"
    by (cases "run_script e ?path st") auto
  obtain b st3 where w: "wait_ready e service 15 st2 = (b, st3)"
    by (cases "wait_ready e service 15 st2")
  obtain r4 st4 where u: "update_service_status e st3 = (r4, st4)"
    by (cases "update_service_status e st3")
  have r2: "runs st2 = Suc (runs st)" using rs by (auto simp: run_script_def)
  have r3: "runs st3 = runs st2" using wait_ready_fields(2) [of e service 15 st2] w by simp
  have r4: "runs st4 = runs st3" using update_status_fields(1) [of e st3] u by simp
  show ?thesis
    using rs w u r2 r3 r4 by (cases b; cases r4) (auto simp: start_finish_def)
qed

lemma step_start_owed:
  "runs (snd (step_start e service t st)) + owed (fst (step_start e service t st))
     \<le> runs st + owed t"
proof (cases t)
  case Fresh
  then show ?thesis using start_probe_owed [of e service st] by (simp add: start_probe_runs)
next
  case Probed
  then show ?thesis using start_finish_runs [of e service st] by (simp add: split_beta)
next
  case (Finished r)
  then show ?thesis by simp
qed

lemma interleave_owed:
  "runs (snd (interleave e service sched ((t1, t2), st)))
     \<le> runs st + owed t1 + owed t2"
proof (induction sched arbitrary: t1 t2 st)
  case Nil
  show ?case by simp
next
  case (Cons second sched)
  show ?case
  proof (cases second)
    case True
    obtain t2' st' where s: "step_start e service t2 st = (t2', st')"
      by (cases "step_start e service t2 st")
    have "runs st' + owed t2' \<le> runs st + owed t2"
      using step_start_owed [of e service t2 st] s by simp
    with Cons [of t1 t2' st'] show ?thesis using True s by simp
  next
    case False
    obtain t1' st' where s: "step_start e service t1 st = (t1', st')"
      by (cases "step_start e service t1 st")
    have "runs st' + owed t1' \<le> runs st + owed t1"
      using step_start_owed [of e service t1 st] s by simp
    with Cons [of t1' t2 st'] show ?thesis using False s by simp
  qed
qed

lemma start_probe_down:
  assumes "service = ''nllb'' \<or> service = ''ollama''" and "\<not> probe_ok e service (gets st)"
  shows "start_probe e service st =
           (Probed, st\<lparr>gets := Suc (gets st), trace := trace st @ [EvProbe service False]\<rparr>)"
  using assms by (auto simp: start_probe_def check_known)


lemma start_finish_found:
  assumes known: "service = ''nllb'' \<or> service = ''ollama''"
    and nllb: "''nllb'' \<in> fst ` set (service_processes st)"
    and ollama: "''ollama'' \<in> fst ` set (service_processes st)"
    and script: "subprocess_run e (runs st) (PROJECT_DIR @ ''/llm-control/start-'' @ service @ ''.sh'')
                   = Completed out err 0"
    and k: "k < 15"
    and before: "\<And>i. i < k \<Longrightarrow> \<not> probe_ok e service (gets st + i)"
    and found: "probe_ok e service (gets st + k)"
  shows "start_finish e service st =
           (Inr (Resp (JObj [(''success'', JBool True),
                             (''message'', JStr (service @ '' service started successfully'')),
                             (''status'', JStr ''running''),
                             (''stdout'', JStr out)])),
            snd (update_service_status e
              (st\<lparr>gets := gets st + k + 1, runs := Suc (runs st),
                  trace := trace st
                    @ [EvScript (PROJECT_DIR @ ''/llm-control/start-'' @ service @ ''.sh'')]
                    @ concat (replicate k [EvSleep 2, EvProbe service False])
                    @ [EvSleep 2, EvProbe service True]\<rparr>)))"
proof -
  let ?path = "PROJECT_DIR @ ''/llm-control/start-'' @ service @ ''.sh''"
  let ?st2 = "st\<lparr>runs := Suc (runs st), trace := trace st @ [EvScript ?path]\<rparr>"
  let ?st3 = "st\<lparr>gets := gets st + k + 1, runs := Suc (runs st),
                 trace := trace st @ [EvScript ?path]
                   @ concat (replicate k [EvSleep 2, EvProbe service False])
                   @ [EvSleep 2, EvProbe service True]\<rparr>"
  have rs: "run_script e ?path st = ((out, err, 0), ?st2)"
    using script by (simp add: run_script_def)
  have a: "\<And>i. i < k \<Longrightarrow> \<not> probe_ok e service (gets ?st2 + i)" using before by simp
  have b: "probe_ok e service (gets ?st2 + k)" using found by simp
  have w: "wait_ready e service 15 ?st2 = (True, ?st3)"
    using wait_ready_found [OF known k a b] by simp
  have s2: "start_finish e service st =
      (case update_service_status e ?st3 of
         (Inl ex, st4) \<Rightarrow> (Inl ex, st4)
       | (Inr u, st4) \<Rightarrow>
           (Inr (Resp (JObj [(''success'', JBool True),
                             (''message'', JStr (service @ '' service started successfully'')),
                             (''status'', JStr ''running''),
                             (''stdout'', JStr out)])), st4))"
    unfolding start_finish_def Let_def rs prod.case w by simp
  have "fst (update_service_status e ?st3) = Inr ()"
    by (rule update_status_ok) (simp_all add: nllb ollama)
  with s2 show ?thesis
    by (cases "update_service_status e ?st3") auto
qed


text \<open>
  Claim C9, as stated, fails: the source takes no lock. When two start requests for
  \<open>nllb\<close> overlap so that both make their first probe before either runs the script,
  and both probes are negative, each of them runs the start script: it is executed
  twice, and both callers are answered with success.
\<close>

theorem concurrent_starts_run_script_twice:
  "interleave env_third ''nllb'' [False, True, False, True] ((Fresh, Fresh), initial_state) =
     ((Finished (Inr (Resp (JObj [(''success'', JBool True),
                                  (''message'', JStr ''nllb service started successfully''),
                                  (''status'', JStr ''running''),
                                  (''stdout'', JStr ''done'')]))),
       Finished (Inr (Resp (JObj [(''success'', JBool True),
                                  (''message'', JStr ''nllb service started successfully''),
                                  (''status'', JStr ''running''),
                                  (''stdout'', JStr ''done'')])))),
      \<lparr>service_processes =
         [(''nllb'', \<lparr>pid = Some 4242, status = ''running'', start_time = None\<rparr>),
          (''ollama'', \<lparr>pid = None, status = ''stopped'', start_time = None\<rparr>)],
       gets = 7, scans = 4, runs = 2,
       trace =
         [EvProbe ''nllb'' False, EvProbe ''nllb'' False,
          EvScript ''/home/jamil/projects/GlobalNews-Letter/llm-control/start-nllb.sh'',
          EvSleep 2, EvProbe ''nllb'' False, EvSleep 2, EvProbe ''nllb'' True,
          EvScan 8000, EvProbe ''nllb'' True, EvScan 8001,
          EvScript ''/home/jamil/projects/GlobalNews-Letter/llm-control/start-nllb.sh'',
          EvSleep 2, EvProbe ''nllb'' True, EvScan 8000,
          EvProbe ''nllb'' True, EvScan 8001]\<rparr>)"
proof -
  let ?ok = "Inr (Resp (JObj [(''success'', JBool True),
                              (''message'', JStr ''nllb service started successfully''),
                              (''status'', JStr ''running''),
                              (''stdout'', JStr ''done'')]))"
  let ?path = "''/home/jamil/projects/GlobalNews-Letter/llm-control/start-nllb.sh''"
  let ?up = "[(''nllb'', \<lparr>pid = Some 4242, status = ''running'', start_time = None\<rparr>),
              (''ollama'', \<lparr>pid = None, status = ''stopped'', start_time = None\<rparr>)]"
  let ?s1 = "\<lparr>service_processes = initial_registry, gets = 1, scans = 0, runs = 0,
              trace = [EvProbe ''nllb'' False]\<rparr>"
  let ?s2 = "\<lparr>service_processes = initial_registry, gets = 2, scans = 0, runs = 0,
              trace = [EvProbe ''nllb'' False, EvProbe ''nllb'' False]\<rparr>"
  let ?s3 = "\<lparr>service_processes = ?up, gets = 5, scans = 2, runs = 1,
              trace = [EvProbe ''nllb'' False, EvProbe ''nllb'' False, EvScript ?path,
                       EvSleep 2, EvProbe ''nllb'' False, EvSleep 2, EvProbe ''nllb'' True,
                       EvScan 8000, EvProbe ''nllb'' True, EvScan 8001]\<rparr>"
  let ?s4 = "\<lparr>service_processes = ?up, gets = 7, scans = 4, runs = 2,
              trace = [EvProbe ''nllb'' False, EvProbe ''nllb'' False, EvScript ?path,
                       EvSleep 2, EvProbe ''nllb'' False, EvSleep 2, EvProbe ''nllb'' True,
                       EvScan 8000, EvProbe ''nllb'' True, EvScan 8001,
                       EvScript ?path, EvSleep 2, EvProbe ''nllb'' True, EvScan 8000,
                       EvProbe ''nllb'' True, EvScan 8001]\<rparr>"
  have p1: "start_probe env_third ''nllb'' initial_state = (Probed, ?s1)"
    by (simp add: start_probe_def check_service_health_def health_url_def env_third_def
          initial_state_def)
  have p2: "start_probe env_third ''nllb'' ?s1 = (Probed, ?s2)"
    by (simp add: start_probe_def check_service_health_def health_url_def env_third_def)
  have f1: "start_finish env_third ''nllb'' ?s2 = (?ok, ?s3)"
    using start_finish_found [of "''nllb''" ?s2 env_third "''done''" "''''" 1]
    by (simp add: initial_registry_def PROJECT_DIR_def probe_ok_def
          update_service_status_def update_one_def get_process_by_port_def
          check_service_health_def health_url_def set_pid_status_def
          env_third_def nllb_listener_def)
  have f2: "start_finish env_third ''nllb'' ?s3 = (?ok, ?s4)"
    using start_finish_found [of "''nllb''" ?s3 env_third "''done''" "''''" 0]
    by (simp add: PROJECT_DIR_def probe_ok_def
          update_service_status_def update_one_def get_process_by_port_def
          check_service_health_def health_url_def set_pid_status_def
          env_third_def nllb_listener_def)
  show ?thesis
    by (simp only: interleave.simps step_start.simps if_False if_True Let_def prod.case
          p1 p2 f1 f2)
qed

text \<open>
  Claim C9, amended. Start requests for the same name are not serialized. Each request
  runs the start script when its own first probe is negative, whatever another request
  is doing: two requests for a known name whose first probes both come before either
  script run, and are both negative, execute the start script twice, and each caller is
  answered from its own second part. In every interleaving of the two requests the
  script is executed at most twice.
\<close>

theorem overlapping_starts_each_run_script:
  assumes known: "service = ''nllb'' \<or> service = ''ollama''"
    and first: "\<not> probe_ok e service (gets st)"
    and second: "\<not> probe_ok e service (Suc (gets st))"
  shows "interleave e service [False, True, False, True] ((Fresh, Fresh), st) =
           ((Finished (fst (start_finish e service
                (st\<lparr>gets := gets st + 2,
                    trace := trace st @ [EvProbe service False, EvProbe service False]\<rparr>))),
             Finished (fst (start_finish e service (snd (start_finish e service
                (st\<lparr>gets := gets st + 2,
                    trace := trace st @ [EvProbe service False, EvProbe service False]\<rparr>)))))),
            snd (start_finish e service (snd (start_finish e service
                (st\<lparr>gets := gets st + 2,
                    trace := trace st @ [EvProbe service False, EvProbe service False]\<rparr>)))))
       \<and> runs (snd (interleave e service [False, True, False, True] ((Fresh, Fresh), st)))
           = runs st + 2
       \<and> runs (snd (interleave e service sched ((Fresh, Fresh), st))) \<le> runs st + 2"
proof -
  let ?st1 = "st\<lparr>gets := Suc (gets st), trace := trace st @ [EvProbe service False]\<rparr>"
  let ?st2 = "st\<lparr>gets := gets st + 2,
                 trace := trace st @ [EvProbe service False, EvProbe service False]\<rparr>"
  let ?st3 = "snd (start_finish e service ?st2)"
  let ?st4 = "snd (start_finish e service ?st3)"
  have p1: "start_probe e service st = (Probed, ?st1)"
    by (rule start_probe_down [OF known first])
  have "start_probe e service ?st1 =
          (Probed, ?st1\<lparr>gets := Suc (gets ?st1), trace := trace ?st1 @ [EvProbe service False]\<rparr>)"
    by (rule start_probe_down [OF known]) (simp add: second)
  then have p2: "start_probe e service ?st1 = (Probed, ?st2)" by simp
  have i: "interleave e service [False, True, False, True] ((Fresh, Fresh), st) =
             ((Finished (fst (start_finish e service ?st2)),
               Finished (fst (start_finish e service ?st3))), ?st4)"
    by (simp add: p1 p2 split_beta)
  have r: "runs (snd (interleave e service [False, True, False, True] ((Fresh, Fresh), st)))
                  = runs st + 2"
    unfolding i by (simp add: start_finish_runs)
  have b: "runs (snd (interleave e service sched ((Fresh, Fresh), st))) \<le> runs st + 2"
    using interleave_owed [of e service sched Fresh Fresh st] by simp
  from i r b show ?thesis by blast
qed

theorem overlapping_starts_each_run_script_witness:
  "(''ollama'' = ''nllb'' \<or> ''ollama'' = ''ollama'')
   \<and> \<not> probe_ok env_down ''ollama'' (gets initial_state)
   \<and> \<not> probe_ok env_down ''ollama'' (Suc (gets initial_state))
   \<and> runs (snd (interleave env_down ''ollama'' [False, True, False, True]
                    ((Fresh, Fresh), initial_state))) = runs initial_state + 2
   \<and> runs (snd (interleave env_down ''ollama'' [True, False, True, False]
                    ((Fresh, Fresh), initial_state))) \<le> runs initial_state + 2"
proof -
  have p: "\<not> probe_ok env_down ''ollama'' (gets initial_state)"
          "\<not> probe_ok env_down ''ollama'' (Suc (gets initial_state))"
    by (simp_all add: probe_ok_def health_url_def env_down_def)
  have k: "''ollama'' = ''nllb'' \<or> ''ollama'' = ''ollama''" by simp
  from overlapping_starts_each_run_script [OF k p, of "[True, False, True, False]"] k p
  show ?thesis by blast
qed

end
